theory Spec2Isabelle
  imports Complex_Main
begin

section \<open>Stealth proxy system: the Proxy entity\<close>

text \<open>
  Shallow embedding of \<^verbatim>\<open>stealth_proxy.py\<close>. Python floats are modelled as reals and
  Python ints as \<^typ>\<open>int\<close>. The wall clock \<^verbatim>\<open>time.time()\<close> is an explicit argument
  \<open>now\<close> of every operation that reads it; an operation that reads the clock several
  times while it runs (under the pool lock) is given one reading.
\<close>

subsection \<open>Constants\<close>

definition INITIAL_PROXY_SCORE :: real where "INITIAL_PROXY_SCORE = 5 / 10"
definition MAX_SCORE_DECAY :: real where "MAX_SCORE_DECAY = 2 / 10"
definition SCORE_DECAY_RATE :: real where "SCORE_DECAY_RATE = 5 / 100"
definition DECAY_HOURS_DIVISOR :: real where "DECAY_HOURS_DIVISOR = 3600"

definition SOFT_FAIL_PENALTY_SECONDS :: int where "SOFT_FAIL_PENALTY_SECONDS = 20"
definition HARD_FAIL_PENALTY_SECONDS :: int where "HARD_FAIL_PENALTY_SECONDS = 90"
definition MAX_PENALTY_MULTIPLIER :: int where "MAX_PENALTY_MULTIPLIER = 3"
definition FAILURE_THRESHOLD :: int where "FAILURE_THRESHOLD = 3"
definition COOLDOWN_REDUCTION_SUCCESS :: real where "COOLDOWN_REDUCTION_SUCCESS = 5"

subsection \<open>Dynamically typed values\<close>

text \<open>
  The values a provider record (a \<^verbatim>\<open>Dict[str, Any]\<close>) can hold: the JSON scalars
  \<^verbatim>\<open>None\<close>, booleans, integers, floats (finite ones, as reals) and strings.
\<close>

datatype pyval = VNone | VBool bool | VInt int | VFloat real | VStr string

subsection \<open>class Proxy\<close>

record proxy =
  host :: pyval
  port :: int
  proto :: string
  country :: pyval
  source :: pyval
  success :: int
  fail :: int
  last_used :: real
  cooldown_until :: real
  created_at :: real

text \<open>\<^verbatim>\<open>str.lower()\<close> on ASCII letters.\<close>

definition lower_char :: "char \<Rightarrow> char" where
  "lower_char c =
     (let n = (of_char c :: nat) in if 65 \<le> n \<and> n \<le> 90 then char_of (n + 32) else c)"

definition lower :: "string \<Rightarrow> string" where
  "lower s = map lower_char s"

text \<open>\<^verbatim>\<open>Proxy.__init__\<close>; \<open>now\<close> is the clock reading stored in \<^verbatim>\<open>created_at\<close>.\<close>

definition Proxy_init :: "real \<Rightarrow> pyval \<Rightarrow> int \<Rightarrow> string \<Rightarrow> pyval \<Rightarrow> pyval \<Rightarrow> proxy" where
  "Proxy_init now h p pr c s =
     \<lparr> host = h, port = p, proto = lower pr, country = c, source = s,
       success = 0, fail = 0, last_used = 0, cooldown_until = 0, created_at = now \<rparr>"

text \<open>The \<^verbatim>\<open>score\<close> property, read at time \<open>now\<close>.\<close>

definition score :: "real \<Rightarrow> proxy \<Rightarrow> real" where
  "score now p =
     (let total = success p + fail p;
          base = (if total > 0 then real_of_int (success p) / real_of_int total
                  else INITIAL_PROXY_SCORE);
          age = max 1 (now - created_at p);
          decay = min MAX_SCORE_DECAY ((age / DECAY_HOURS_DIVISOR) * SCORE_DECAY_RATE)
      in max 0 (min 1 (base - decay)))"

definition mark_success :: "real \<Rightarrow> proxy \<Rightarrow> proxy" where
  "mark_success now p =
     p \<lparr> success := success p + 1,
         last_used := now,
         cooldown_until := max (cooldown_until p - COOLDOWN_REDUCTION_SUCCESS) now \<rparr>"

definition mark_fail :: "real \<Rightarrow> bool \<Rightarrow> proxy \<Rightarrow> proxy" where
  "mark_fail now soft p =
     (let fail' = fail p + 1;
          base_penalty = (if soft then SOFT_FAIL_PENALTY_SECONDS else HARD_FAIL_PENALTY_SECONDS);
          scaled = base_penalty * min MAX_PENALTY_MULTIPLIER (1 + fail' div FAILURE_THRESHOLD)
      in p \<lparr> fail := fail',
              last_used := now,
              cooldown_until := max (cooldown_until p) (now + real_of_int scaled) \<rparr>)"

definition is_available :: "real \<Rightarrow> proxy \<Rightarrow> bool" where
  "is_available now p \<longleftrightarrow> now \<ge> cooldown_until p"

text \<open>
  The counters start at 0 and are only ever incremented, so they are never negative in a
  Proxy the program has built.
\<close>

definition counts_ok :: "proxy \<Rightarrow> bool" where
  "counts_ok p \<longleftrightarrow> 0 \<le> success p \<and> 0 \<le> fail p"

section \<open>The proxy pool\<close>

text \<open>
  Proxy objects are shared: the pool's list, its sticky map and the session that was handed
  a proxy all refer to the same object, and \<^verbatim>\<open>mark_success\<close>/\<^verbatim>\<open>mark_fail\<close> mutate it in
  place. The objects therefore live in a store, and lists and maps hold their addresses.
\<close>

type_synonym addr = nat
type_synonym heap = "addr \<Rightarrow> proxy"

record proxy_pool =
  proxies :: "addr list"
  max_size :: int
  min_score :: real
  eviction_threshold :: real
  cursor :: int
  sticky_map :: "string \<rightharpoonup> addr"

definition ProxyPool_init :: "int \<Rightarrow> real \<Rightarrow> real \<Rightarrow> proxy_pool" where
  "ProxyPool_init ms mn ev =
     \<lparr> proxies = [], max_size = ms, min_score = mn, eviction_threshold = ev,
       cursor = 0, sticky_map = Map.empty \<rparr>"

definition add_proxy :: "proxy_pool \<Rightarrow> addr \<Rightarrow> proxy_pool" where
  "add_proxy pool a =
     (if int (length (proxies pool)) < max_size pool
      then pool \<lparr> proxies := proxies pool @ [a] \<rparr> else pool)"

fun bulk_add :: "proxy_pool \<Rightarrow> addr list \<Rightarrow> proxy_pool" where
  "bulk_add pool [] = pool"
| "bulk_add pool (p # ps) =
     (if int (length (proxies pool)) \<ge> max_size pool then pool
      else bulk_add (pool \<lparr> proxies := proxies pool @ [p] \<rparr>) ps)"

text \<open>The condition of the list comprehension in \<^verbatim>\<open>_evict_bad\<close>: the proxies that stay.\<close>

definition retained :: "real \<Rightarrow> heap \<Rightarrow> proxy_pool \<Rightarrow> addr \<Rightarrow> bool" where
  "retained now h pool a \<longleftrightarrow>
     score now (h a) \<ge> eviction_threshold pool \<or> success (h a) + fail (h a) < 5"

definition evict_bad :: "real \<Rightarrow> heap \<Rightarrow> proxy_pool \<Rightarrow> proxy_pool" where
  "evict_bad now h pool = pool \<lparr> proxies := filter (retained now h pool) (proxies pool) \<rparr>"

text \<open>
  \<^verbatim>\<open>enable_sticky and domain\<close>: the domain under which the sticky map is consulted, if any.
  \<^verbatim>\<open>None\<close> and the empty string are both false in Python.
\<close>

definition sticky_key :: "string option \<Rightarrow> bool \<Rightarrow> string option" where
  "sticky_key domain enable_sticky =
     (if enable_sticky
      then (case domain of None \<Rightarrow> None | Some d \<Rightarrow> if d = [] then None else Some d)
      else None)"

definition healthy :: "real \<Rightarrow> heap \<Rightarrow> proxy_pool \<Rightarrow> addr \<Rightarrow> bool" where
  "healthy now h pool a \<longleftrightarrow> is_available now (h a) \<and> score now (h a) \<ge> min_score pool"

text \<open>The sticky proxy of the domain, when it is still available and healthy.\<close>

definition sticky_choice :: "real \<Rightarrow> heap \<Rightarrow> proxy_pool \<Rightarrow> string option \<Rightarrow> addr option" where
  "sticky_choice now h pool key =
     (case key of None \<Rightarrow> None
      | Some d \<Rightarrow>
          (case sticky_map pool d of None \<Rightarrow> None
           | Some s \<Rightarrow> if healthy now h pool s then Some s else None))"

text \<open>The candidate list: the healthy proxies, or else any available proxy.\<close>

definition candidates :: "real \<Rightarrow> heap \<Rightarrow> proxy_pool \<Rightarrow> addr list" where
  "candidates now h pool =
     (let good = filter (healthy now h pool) (proxies pool)
      in if good = [] then filter (\<lambda>a. is_available now (h a)) (proxies pool) else good)"

definition get_next ::
  "real \<Rightarrow> heap \<Rightarrow> proxy_pool \<Rightarrow> string option \<Rightarrow> bool \<Rightarrow> addr option \<times> proxy_pool" where
  "get_next now h pool0 domain enable_sticky =
     (let pool = evict_bad now h pool0;
          key = sticky_key domain enable_sticky
      in case sticky_choice now h pool key of
           Some s \<Rightarrow> (Some s, pool)
         | None \<Rightarrow>
             (let cs = candidates now h pool
              in if cs = [] then (None, pool)
                 else
                   (let c = (cursor pool + 1) mod int (length cs);
                        chosen = cs ! nat c;
                        pool' = pool \<lparr> cursor := c \<rparr>
                    in (Some chosen,
                        case key of None \<Rightarrow> pool'
                        | Some d \<Rightarrow> pool' \<lparr> sticky_map := (sticky_map pool')(d \<mapsto> chosen) \<rparr>))))"

fun mark_result :: "real \<Rightarrow> heap \<Rightarrow> addr option \<Rightarrow> bool \<Rightarrow> bool \<Rightarrow> heap" where
  "mark_result now h None succ soft_fail = h"
| "mark_result now h (Some a) succ soft_fail =
     h (a := (if succ then mark_success now (h a) else mark_fail now soft_fail (h a)))"

subsection \<open>Sequences of pool operations\<close>

datatype pool_op =
    AddProxy addr
  | BulkAdd "addr list"
  | GetNext real "string option" bool
  | MarkResult real "addr option" bool bool

fun step :: "pool_op \<Rightarrow> heap \<times> proxy_pool \<Rightarrow> heap \<times> proxy_pool" where
  "step (AddProxy a) (h, pool) = (h, add_proxy pool a)"
| "step (BulkAdd as) (h, pool) = (h, bulk_add pool as)"
| "step (GetNext now domain st) (h, pool) = (h, snd (get_next now h pool domain st))"
| "step (MarkResult now a succ soft) (h, pool) = (mark_result now h a succ soft, pool)"

fun run :: "pool_op list \<Rightarrow> heap \<times> proxy_pool \<Rightarrow> heap \<times> proxy_pool" where
  "run [] w = w"
| "run (x # xs) w = run xs (step x w)"

text \<open>The proxies handed to the pool by a sequence of operations.\<close>

fun offered :: "pool_op list \<Rightarrow> addr set" where
  "offered [] = {}"
| "offered (AddProxy a # xs) = insert a (offered xs)"
| "offered (BulkAdd as # xs) = set as \<union> offered xs"
| "offered (x # xs) = offered xs"

text \<open>
  The operations that can come between two selections made at time \<open>now\<close> without a
  failure being recorded and without time passing: additions to the pool, selections made
  at that time, and results that are marked as a success (or for no proxy at all).
\<close>

fun quiet :: "real \<Rightarrow> pool_op \<Rightarrow> bool" where
  "quiet now (AddProxy a) = True"
| "quiet now (BulkAdd as) = True"
| "quiet now (GetNext t domain st) = (t = now)"
| "quiet now (MarkResult t a succ soft) = (t = now \<and> (succ \<or> a = None))"

subsection \<open>Pools with a single proxy\<close>

text \<open>
  A proxy that \<^verbatim>\<open>get_next\<close> can hand out at time \<open>now\<close>: it is out of cooldown and
  \<^verbatim>\<open>_evict_bad\<close> keeps it. And a pool that refers to no proxy but \<open>a\<close>, in its list and
  in its sticky map.
\<close>

definition selectable :: "real \<Rightarrow> proxy_pool \<Rightarrow> proxy \<Rightarrow> bool" where
  "selectable now pool p \<longleftrightarrow>
     is_available now p \<and> (eviction_threshold pool \<le> score now p \<or> success p + fail p < 5)"

definition only :: "addr \<Rightarrow> proxy_pool \<Rightarrow> bool" where
  "only a pool \<longleftrightarrow> set (proxies pool) \<subseteq> {a} \<and> ran (sticky_map pool) \<subseteq> {a}"

section \<open>The provider adapter\<close>

datatype py_error = KeyError | TypeError | ValueError | AttributeError

type_synonym provider_record = "string \<rightharpoonup> pyval"

text \<open>
  The builtin \<^verbatim>\<open>int()\<close>. A float is truncated towards zero. The reading of a string
  is a parameter \<open>parse\<close>, which gives the integer the string denotes, or nothing when
  \<^verbatim>\<open>int\<close> raises \<^verbatim>\<open>ValueError\<close>.
\<close>

fun py_int :: "(string \<Rightarrow> int option) \<Rightarrow> pyval \<Rightarrow> py_error + int" where
  "py_int parse (VInt n) = Inr n"
| "py_int parse (VBool b) = Inr (if b then 1 else 0)"
| "py_int parse (VFloat x) = Inr (if 0 \<le> x then \<lfloor>x\<rfloor> else \<lceil>x\<rceil>)"
| "py_int parse (VStr s) = (case parse s of None \<Rightarrow> Inl ValueError | Some n \<Rightarrow> Inr n)"
| "py_int parse VNone = Inl TypeError"

text \<open>\<^verbatim>\<open>dict.get(key, default)\<close>.\<close>

definition dict_get :: "provider_record \<Rightarrow> string \<Rightarrow> pyval \<Rightarrow> pyval" where
  "dict_get item k d = (case item k of None \<Rightarrow> d | Some v \<Rightarrow> v)"

text \<open>
  The body of the \<^verbatim>\<open>try\<close> block: the arguments are evaluated in order, then
  \<^verbatim>\<open>Proxy.__init__\<close> calls \<^verbatim>\<open>proto.lower()\<close>, which only a string has.
\<close>

definition convert_item :: "(string \<Rightarrow> int option) \<Rightarrow> real \<Rightarrow> provider_record \<Rightarrow> py_error + proxy" where
  "convert_item parse now item =
     (case item ''ip'' of None \<Rightarrow> Inl KeyError
      | Some h \<Rightarrow>
          (case item ''port'' of None \<Rightarrow> Inl KeyError
           | Some pv \<Rightarrow>
               (case py_int parse pv of Inl e \<Rightarrow> Inl e
                | Inr p \<Rightarrow>
                    (case dict_get item ''protocol'' (VStr ''http'') of
                       VStr pr \<Rightarrow>
                         Inr (Proxy_init now h p pr (dict_get item ''country'' VNone)
                                (dict_get item ''source'' (VStr ''provider'')))
                     | _ \<Rightarrow> Inl AttributeError))))"

fun integrate_provider_proxies ::
  "(string \<Rightarrow> int option) \<Rightarrow> real \<Rightarrow> provider_record list \<Rightarrow> proxy list" where
  "integrate_provider_proxies parse now [] = []"
| "integrate_provider_proxies parse now (item # rest) =
     (case convert_item parse now item of
        Inl e \<Rightarrow> integrate_provider_proxies parse now rest
      | Inr p \<Rightarrow> p # integrate_provider_proxies parse now rest)"

text \<open>
  The records the adapter is meant for, in the words of the specification: a record is
  well-formed when it contains an address and a port, and malformed when it misses one
  of them. In the code the address is the key \<^verbatim>\<open>ip\<close>.
\<close>

definition well_formed :: "provider_record \<Rightarrow> bool" where
  "well_formed item \<longleftrightarrow> item ''ip'' \<noteq> None \<and> item ''port'' \<noteq> None"

definition missing_address_or_port :: "provider_record \<Rightarrow> bool" where
  "missing_address_or_port item \<longleftrightarrow> item ''ip'' = None \<or> item ''port'' = None"

text \<open>
  A record that follows the provider schema in full: an address string, an integer port,
  and a protocol that is a string when present.
\<close>

definition follows_schema :: "provider_record \<Rightarrow> bool" where
  "follows_schema item \<longleftrightarrow>
     (case item ''ip'' of Some (VStr a) \<Rightarrow> True | _ \<Rightarrow> False) \<and>
     (case item ''port'' of Some (VInt n) \<Rightarrow> True | _ \<Rightarrow> False) \<and>
     (case item ''protocol'' of None \<Rightarrow> True | Some (VStr pr) \<Rightarrow> True | _ \<Rightarrow> False)"

text \<open>
  The records that the conversion accepts: both keys are there, \<^verbatim>\<open>int()\<close> accepts the
  value of the port, and the protocol, when given, is a string.
\<close>

definition port_accepted :: "(string \<Rightarrow> int option) \<Rightarrow> provider_record \<Rightarrow> bool" where
  "port_accepted parse item \<longleftrightarrow>
     (case item ''port'' of None \<Rightarrow> False | Some pv \<Rightarrow> \<not> isl (py_int parse pv))"

definition protocol_is_string :: "provider_record \<Rightarrow> bool" where
  "protocol_is_string item \<longleftrightarrow>
     (case item ''protocol'' of None \<Rightarrow> True | Some (VStr pr) \<Rightarrow> True | _ \<Rightarrow> False)"

definition convertible :: "(string \<Rightarrow> int option) \<Rightarrow> provider_record \<Rightarrow> bool" where
  "convertible parse item \<longleftrightarrow>
     well_formed item \<and> port_accepted parse item \<and> protocol_is_string item"

text \<open>The Proxy that a convertible record stands for.\<close>

definition proxy_of :: "(string \<Rightarrow> int option) \<Rightarrow> real \<Rightarrow> provider_record \<Rightarrow> proxy" where
  "proxy_of parse now item =
     Proxy_init now
       (dict_get item ''ip'' VNone)
       (case item ''port'' of None \<Rightarrow> 0
        | Some pv \<Rightarrow> (case py_int parse pv of Inl e \<Rightarrow> 0 | Inr n \<Rightarrow> n))
       (case item ''protocol'' of Some (VStr pr) \<Rightarrow> pr | _ \<Rightarrow> ''http'')
       (dict_get item ''country'' VNone)
       (dict_get item ''source'' (VStr ''provider''))"

section \<open>The stealth session\<close>

text \<open>
  Pacing (\<^verbatim>\<open>_respect_rate_limit\<close>), the attempt-level jitter (\<^verbatim>\<open>human_delay\<close>) and the
  random headers touch neither the pool nor a proxy: they only let time pass and shape the
  outgoing request. What the network answers and when the pool is consulted is given by
  the environment of each attempt.
\<close>

record response =
  status_code :: int
  text_body :: string

datatype net_result =
    Responded response
  | Timeout
  | ConnectionError
  | RequestException

record attempt_env =
  sel_time :: real
  mark_time :: real
  net :: "addr \<Rightarrow> net_result"

definition SOFT_STATUS_CODES :: "int set" where
  "SOFT_STATUS_CODES = {403, 429, 503}"

definition BLOCK_PATTERNS :: "string list" where
  "BLOCK_PATTERNS =
     [''captcha'', ''recaptcha'', ''access denied'', ''verify you are human'',
      ''are you a robot'', ''unusual traffic'', ''blocked because'', ''forbidden'']"

fun starts_with :: "string \<Rightarrow> string \<Rightarrow> bool" where
  "starts_with [] s = True"
| "starts_with (c # cs) [] = False"
| "starts_with (c # cs) (d # ds) = (c = d \<and> starts_with cs ds)"

text \<open>\<^verbatim>\<open>pat in s\<close> for strings.\<close>

fun contains :: "string \<Rightarrow> string \<Rightarrow> bool" where
  "contains pat [] = (pat = [])"
| "contains pat (d # ds) = (starts_with pat (d # ds) \<or> contains pat ds)"

definition looks_blocked :: "response \<Rightarrow> bool" where
  "looks_blocked resp \<longleftrightarrow>
     status_code resp \<in> SOFT_STATUS_CODES \<or>
     (let t = lower (take 4096 (text_body resp))
      in list_ex (\<lambda>pat. contains pat t) BLOCK_PATTERNS)"

record stealth_session =
  timeout :: int
  max_retries :: int
  per_domain_delay :: "real \<times> real"
  domain_last_req :: "string \<rightharpoonup> real"

text \<open>
  \<^verbatim>\<open>StealthSession.__init__\<close> stores its arguments. The result type has room for an
  error raised at construction; the constructor has no statement that raises one.
\<close>

definition StealthSession_init ::
  "int \<Rightarrow> int \<Rightarrow> real \<times> real \<Rightarrow> py_error + stealth_session" where
  "StealthSession_init base_timeout max_retries_per_request delay =
     Inr \<lparr> timeout = base_timeout, max_retries = max_retries_per_request,
           per_domain_delay = delay, domain_last_req = Map.empty \<rparr>"

type_synonym world = "heap \<times> proxy_pool"
type_synonym outcome = "response option \<times> addr option"

text \<open>
  \<^verbatim>\<open>_request_once\<close>: the pool is asked for a proxy at \<open>sel_time\<close>, the network answers,
  and the result is marked at \<open>mark_time\<close>.
\<close>

definition request_once :: "attempt_env \<Rightarrow> string \<Rightarrow> world \<Rightarrow> outcome \<times> world" where
  "request_once e domain w =
     (let h = fst w;
          (p, pool) = get_next (sel_time e) h (snd w) (Some domain) True
      in case p of
           None \<Rightarrow> ((None, None), (h, pool))
         | Some a \<Rightarrow>
             (let good = (mark_result (mark_time e) h (Some a) True False, pool);
                  soft = (mark_result (mark_time e) h (Some a) False True, pool);
                  hard = (mark_result (mark_time e) h (Some a) False False, pool)
              in case net e a of
                   Responded resp \<Rightarrow>
                     (if 200 \<le> status_code resp \<and> status_code resp < 300
                      then (if looks_blocked resp then ((None, Some a), soft)
                            else ((Some resp, Some a), good))
                      else if status_code resp \<in> SOFT_STATUS_CODES then ((None, Some a), soft)
                      else if 300 \<le> status_code resp \<and> status_code resp < 400
                      then ((Some resp, Some a), good)
                      else ((None, Some a), soft))
                 | Timeout \<Rightarrow> ((None, Some a), soft)
                 | ConnectionError \<Rightarrow> ((None, Some a), soft)
                 | RequestException \<Rightarrow> ((None, Some a), hard)))"

text \<open>
  The loop of \<^verbatim>\<open>request\<close> over \<^verbatim>\<open>range(1, max_retries + 1)\<close>: \<open>attempt\<close> is the loop
  variable and \<open>n\<close> the number of iterations left. Besides the response it returns what
  each iteration got from \<^verbatim>\<open>_request_once\<close>, one entry per attempt made.
\<close>

fun request_loop ::
  "(nat \<Rightarrow> attempt_env) \<Rightarrow> string \<Rightarrow> nat \<Rightarrow> nat \<Rightarrow> world
     \<Rightarrow> response option \<times> outcome list \<times> world" where
  "request_loop env domain attempt 0 w = (None, [], w)"
| "request_loop env domain attempt (Suc n) w =
     (let (out, w') = request_once (env attempt) domain w
      in case fst out of
           Some resp \<Rightarrow> (Some resp, [out], w')
         | None \<Rightarrow>
             (let (r, outs, w'') = request_loop env domain (Suc attempt) n w'
              in (r, out # outs, w'')))"

definition request ::
  "stealth_session \<Rightarrow> (nat \<Rightarrow> attempt_env) \<Rightarrow> string \<Rightarrow> world
     \<Rightarrow> response option \<times> outcome list \<times> world" where
  "request s env domain w = request_loop env domain 1 (nat (max_retries s)) w"

section \<open>Example states\<close>

text \<open>
  A proxy without history, created at time 0, and the same proxy after two and after five
  soft failures; a store holding them at addresses 0, 1 and 2, and a pool with the default
  thresholds loaded with these three.
\<close>

definition example_proxy :: proxy where
  "example_proxy = Proxy_init 0 (VStr ''1.2.3.4'') 8000 ''http'' VNone VNone"

definition fail_twice :: "real \<Rightarrow> proxy \<Rightarrow> proxy" where
  "fail_twice now p = mark_fail now True (mark_fail now True p)"

definition fail_five :: "real \<Rightarrow> proxy \<Rightarrow> proxy" where
  "fail_five now p = mark_fail now True (fail_twice now (fail_twice now p))"

definition example_heap :: heap where
  "example_heap =
     (\<lambda>a. example_proxy) (0 := fail_five 0 example_proxy, 1 := fail_twice 0 example_proxy)"

definition example_pool :: proxy_pool where
  "example_pool = bulk_add (ProxyPool_init 200 (25 / 100) (5 / 100)) [0, 1, 2]"

text \<open>The capacity invariant of a pool whose capacity is \<open>ms\<close>.\<close>

definition within_capacity :: "heap \<times> proxy_pool \<Rightarrow> int \<Rightarrow> bool" where
  "within_capacity w ms \<longleftrightarrow> max_size (snd w) = ms \<and> int (length (proxies (snd w))) \<le> ms"

text \<open>
  Provider records as in the repository's provider test, one without a port, one whose
  protocol is \<^verbatim>\<open>None\<close> and one whose port is the float 8080.7; a
  reading of strings for \<^verbatim>\<open>int()\<close> that accepts none; and an environment in which every
  network call raises a connection error, with attempts two seconds apart.
\<close>

definition record_us :: provider_record where
  "record_us = [''ip'' \<mapsto> VStr ''1.2.3.4'', ''port'' \<mapsto> VInt 8000, ''protocol'' \<mapsto> VStr ''http'',
                ''country'' \<mapsto> VStr ''US'', ''source'' \<mapsto> VStr ''test_provider'']"

definition record_no_port :: provider_record where
  "record_no_port = [''ip'' \<mapsto> VStr ''9.9.9.9'', ''country'' \<mapsto> VStr ''DE'']"

definition record_uk :: provider_record where
  "record_uk = [''ip'' \<mapsto> VStr ''5.6.7.8'', ''port'' \<mapsto> VInt 8080, ''protocol'' \<mapsto> VStr ''HTTPS'',
                ''country'' \<mapsto> VStr ''UK'']"

definition record_null_protocol :: provider_record where
  "record_null_protocol =
     [''ip'' \<mapsto> VStr ''1.2.3.4'', ''port'' \<mapsto> VInt 8000, ''protocol'' \<mapsto> VNone]"

definition record_float_port :: provider_record where
  "record_float_port = [''ip'' \<mapsto> VStr ''7.7.7.7'', ''port'' \<mapsto> VFloat (80807 / 10)]"

definition no_parse :: "string \<Rightarrow> int option" where
  "no_parse s = None"

definition failing_env :: "nat \<Rightarrow> attempt_env" where
  "failing_env i =
     \<lparr> sel_time = 100 + 2 * real i, mark_time = 101 + 2 * real i, net = (\<lambda>a. ConnectionError) \<rparr>"

text \<open>
  A store in which every proxy is without history, one in which every proxy has one soft
  failure at time 0, and a pool with the default thresholds holding proxies 0 and 1.
\<close>

definition fresh_heap :: heap where
  "fresh_heap = (\<lambda>a. example_proxy)"

definition low_heap :: heap where
  "low_heap = (\<lambda>a. mark_fail 0 True example_proxy)"

definition pair_pool :: proxy_pool where
  "pair_pool = add_proxy (add_proxy (ProxyPool_init 200 (25 / 100) (5 / 100)) 0) 1"

text \<open>
  A run in which proxy 0 becomes the sticky proxy of a domain, fails five times and is then
  evicted by the next selection.
\<close>

definition evicting_run :: "pool_op list" where
  "evicting_run =
     [AddProxy 0,
      GetNext 10 (Some ''example.com'') True,
      MarkResult 10 (Some 0) False True,
      MarkResult 10 (Some 0) False True,
      MarkResult 10 (Some 0) False True,
      MarkResult 10 (Some 0) False True,
      MarkResult 10 (Some 0) False True,
      GetNext 10 (Some ''example.com'') True]"

text \<open>
  Operations without a failure at time 100: two successes, a selection for another domain
  and an addition. And a later store, in which proxy 1 has had a success at time 120 and a
  soft failure at time 130.
\<close>

definition quiet_run :: "pool_op list" where
  "quiet_run =
     [MarkResult 100 (Some 1) True False,
      GetNext 100 (Some ''other.org'') True,
      AddProxy 2,
      MarkResult 100 (Some 0) True False]"

definition later_heap :: heap where
  "later_heap = fresh_heap (1 := mark_fail 130 True (mark_success 120 example_proxy))"




section \<open>Properties of the Proxy entity\<close>

lemma counts_ok_init: "counts_ok (Proxy_init now h p pr c s)"
  by (simp add: counts_ok_def Proxy_init_def)

lemma counts_ok_mark_success: "counts_ok p \<Longrightarrow> counts_ok (mark_success now p)"
  by (simp add: counts_ok_def mark_success_def)

lemma counts_ok_mark_fail: "counts_ok p \<Longrightarrow> counts_ok (mark_fail now soft p)"
  by (simp add: counts_ok_def mark_fail_def Let_def)

lemma decay_positive:
  "0 < min MAX_SCORE_DECAY ((max 1 x / DECAY_HOURS_DIVISOR) * SCORE_DECAY_RATE)"
proof -
  have "0 < max 1 x" by simp
  then have "0 < (max 1 x / DECAY_HOURS_DIVISOR) * SCORE_DECAY_RATE"
    by (simp add: DECAY_HOURS_DIVISOR_def SCORE_DECAY_RATE_def)
  then show ?thesis
    by (simp add: MAX_SCORE_DECAY_def)
qed

lemma base_le_one:
  assumes "counts_ok p"
  shows "(if success p + fail p > 0
          then real_of_int (success p) / real_of_int (success p + fail p)
          else INITIAL_PROXY_SCORE) \<le> 1"
proof (cases "success p + fail p > 0")
  case True
  from assms have "success p \<le> success p + fail p" by (simp add: counts_ok_def)
  then have "real_of_int (success p) \<le> real_of_int (success p + fail p)"
    by linarith
  with True show ?thesis by simp
next
  case False
  then show ?thesis by (simp add: INITIAL_PROXY_SCORE_def)
qed

text \<open>
  C7. For every Proxy state (any success count, fail count, creation time) and every
  observation time, the score lies in the closed interval from 0 to 1.
\<close>

theorem score_in_unit_interval: "0 \<le> score now p \<and> score now p \<le> 1"
  by (simp add: score_def Let_def)

text \<open>
  C10. For every Proxy state whose counters are non-negative and every observation time,
  the score is strictly below 1: the age is at least one second, so the decay subtracted
  from the success ratio is strictly positive.
\<close>

theorem score_below_one:
  assumes "counts_ok p"
  shows "score now p < 1"
proof -
  let ?base = "(if success p + fail p > 0
                then real_of_int (success p) / real_of_int (success p + fail p)
                else INITIAL_PROXY_SCORE)"
  let ?decay = "min MAX_SCORE_DECAY
                  ((max 1 (now - created_at p) / DECAY_HOURS_DIVISOR) * SCORE_DECAY_RATE)"
  have b: "?base \<le> 1" using assms by (rule base_le_one)
  have d: "0 < ?decay" by (rule decay_positive)
  have "?base - ?decay < 1" using b d by linarith
  then have "max 0 (min 1 (?base - ?decay)) < 1" by simp
  then show ?thesis by (simp add: score_def Let_def)
qed

theorem score_below_one_witness:
  "counts_ok (mark_success 10 (Proxy_init 0 (VStr ''1.2.3.4'') 8000 ''http'' VNone VNone))
   \<and> score 10 (mark_success 10 (Proxy_init 0 (VStr ''1.2.3.4'') 8000 ''http'' VNone VNone)) < 1"
proof -
  have c: "counts_ok (mark_success 10 (Proxy_init 0 (VStr ''1.2.3.4'') 8000 ''http'' VNone VNone))"
    by (simp add: counts_ok_def mark_success_def Proxy_init_def)
  show ?thesis using c score_below_one [OF c, of 10] by simp
qed

section \<open>Evaluating the example states\<close>

lemmas consts_defs = INITIAL_PROXY_SCORE_def MAX_SCORE_DECAY_def SCORE_DECAY_RATE_def
  DECAY_HOURS_DIVISOR_def SOFT_FAIL_PENALTY_SECONDS_def HARD_FAIL_PENALTY_SECONDS_def
  MAX_PENALTY_MULTIPLIER_def FAILURE_THRESHOLD_def COOLDOWN_REDUCTION_SUCCESS_def

lemma example_proxy_fields:
  "success example_proxy = 0" "fail example_proxy = 0" "cooldown_until example_proxy = 0"
  "created_at example_proxy = 0"
  by (simp_all add: example_proxy_def Proxy_init_def)

lemma mark_fail_fields:
  "success (mark_fail now soft p) = success p"
  "fail (mark_fail now soft p) = fail p + 1"
  "created_at (mark_fail now soft p) = created_at p"
  "cooldown_until (mark_fail now soft p) =
     max (cooldown_until p)
       (now + real_of_int ((if soft then 20 else 90) * min 3 (1 + (fail p + 1) div 3)))"
  by (simp_all add: mark_fail_def Let_def consts_defs)

lemma fail_twice_fields:
  "fail (fail_twice 0 example_proxy) = 2" "success (fail_twice 0 example_proxy) = 0"
  "cooldown_until (fail_twice 0 example_proxy) = 20" "created_at (fail_twice 0 example_proxy) = 0"
  by (simp_all add: fail_twice_def mark_fail_fields example_proxy_fields)

lemma fail_five_fields:
  "fail (fail_five 0 example_proxy) = 5" "success (fail_five 0 example_proxy) = 0"
  "cooldown_until (fail_five 0 example_proxy) = 40" "created_at (fail_five 0 example_proxy) = 0"
  by (simp_all add: fail_five_def fail_twice_def mark_fail_fields example_proxy_fields)

lemma score_eq:
  "score now p =
     max 0 (min 1 ((if success p + fail p > 0
                    then real_of_int (success p) / real_of_int (success p + fail p) else 1 / 2)
                   - min (1 / 5) (max 1 (now - created_at p) / 72000)))"
  by (simp add: score_def Let_def consts_defs)

lemma example_heap_at:
  "example_heap 0 = fail_five 0 example_proxy"
  "example_heap (Suc 0) = fail_twice 0 example_proxy"
  "example_heap 2 = example_proxy"
  by (simp_all add: example_heap_def)

lemma example_pool_eq:
  "example_pool = \<lparr> proxies = [0, 1, 2], max_size = 200, min_score = 1 / 4,
     eviction_threshold = 1 / 20, cursor = 0, sticky_map = Map.empty \<rparr>"
  by (simp add: example_pool_def ProxyPool_init_def)

section \<open>Eviction\<close>

lemma proxies_evict_bad:
  "proxies (evict_bad now h pool) = filter (retained now h pool) (proxies pool)"
  by (simp add: evict_bad_def)

lemma evict_bad_fields:
  "max_size (evict_bad now h pool) = max_size pool"
  "min_score (evict_bad now h pool) = min_score pool"
  "eviction_threshold (evict_bad now h pool) = eviction_threshold pool"
  "cursor (evict_bad now h pool) = cursor pool"
  "sticky_map (evict_bad now h pool) = sticky_map pool"
  by (simp_all add: evict_bad_def)

lemma example_evicted: "proxies (evict_bad 100 example_heap example_pool) = [1, 2]"
  by (simp add: proxies_evict_bad retained_def example_pool_eq example_heap_at score_eq
      fail_five_fields fail_twice_fields example_proxy_fields)

text \<open>
  C9. Eviction removes a proxy from the list only when its score is below the eviction
  threshold and it has at least 5 recorded attempts; a proxy with fewer than 5 attempts
  stays in the list whatever its score.
\<close>

theorem evict_bad_removes_only_sampled_low_score:
  "(a \<in> set (proxies pool) \<and> a \<notin> set (proxies (evict_bad now h pool))
      \<longrightarrow> score now (h a) < eviction_threshold pool \<and> success (h a) + fail (h a) \<ge> 5) \<and>
   (a \<in> set (proxies pool) \<and> success (h a) + fail (h a) < 5
      \<longrightarrow> a \<in> set (proxies (evict_bad now h pool)))"
  by (auto simp: proxies_evict_bad retained_def)

theorem evict_bad_removes_only_sampled_low_score_witness:
  "(0 \<in> set (proxies example_pool) \<and> 0 \<notin> set (proxies (evict_bad 100 example_heap example_pool)))
   \<and> (score 100 (example_heap 0) < eviction_threshold example_pool
        \<and> success (example_heap 0) + fail (example_heap 0) \<ge> 5)
   \<and> (1 \<in> set (proxies example_pool) \<and> success (example_heap 1) + fail (example_heap 1) < 5)
   \<and> score 100 (example_heap 1) < eviction_threshold example_pool
   \<and> 1 \<in> set (proxies (evict_bad 100 example_heap example_pool))"
proof -
  have a: "0 \<in> set (proxies example_pool) \<and> 0 \<notin> set (proxies (evict_bad 100 example_heap example_pool))"
    by (simp add: example_evicted) (simp add: example_pool_eq)
  have b: "1 \<in> set (proxies example_pool) \<and> success (example_heap 1) + fail (example_heap 1) < 5"
    by (simp add: example_pool_eq example_heap_at fail_twice_fields)
  have c: "score 100 (example_heap 1) < eviction_threshold example_pool"
    by (simp add: example_pool_eq example_heap_at fail_twice_fields score_eq)
  show ?thesis
    using a b c
      evict_bad_removes_only_sampled_low_score [of 0 example_pool 100 example_heap]
      evict_bad_removes_only_sampled_low_score [of 1 example_pool 100 example_heap]
    by blast
qed

section \<open>Cooldown after a success\<close>

text \<open>
  A proxy whose cooldown lies in the past (here a proxy without history, at time 100) gets
  its \<open>cooldown_until\<close> raised to the present by \<open>mark_success\<close>.
\<close>

theorem mark_success_cooldown_counterexample:
  "\<not> cooldown_until (mark_success 100 example_proxy) \<le> cooldown_until example_proxy"
  by (simp add: mark_success_def example_proxy_fields COOLDOWN_REDUCTION_SUCCESS_def)

text \<open>
  C2, amended. \<open>mark_success\<close> sets \<open>cooldown_until\<close> to the later of its old value less
  5 seconds and the time of the call. So it never raises \<open>cooldown_until\<close> above the later
  of its old value and the time of the call; for a proxy whose cooldown has not yet
  expired at the time of the call, \<open>cooldown_until\<close> after the call is at most what it was
  before; and for a proxy whose cooldown has expired it is raised to the time of the call.
\<close>

theorem mark_success_cooldown:
  "cooldown_until (mark_success now p) = max (cooldown_until p - 5) now \<and>
   cooldown_until (mark_success now p) \<le> max (cooldown_until p) now \<and>
   (now \<le> cooldown_until p \<longrightarrow> cooldown_until (mark_success now p) \<le> cooldown_until p) \<and>
   (cooldown_until p \<le> now \<longrightarrow> cooldown_until (mark_success now p) = now)"
  by (simp add: mark_success_def COOLDOWN_REDUCTION_SUCCESS_def)

theorem mark_success_cooldown_witness:
  "(10::real) \<le> cooldown_until (fail_twice 0 example_proxy)
   \<and> cooldown_until (fail_twice 0 example_proxy) = 20
   \<and> cooldown_until (mark_success 10 (fail_twice 0 example_proxy)) = 15
   \<and> cooldown_until (mark_success 10 (fail_twice 0 example_proxy))
       \<le> cooldown_until (fail_twice 0 example_proxy)
   \<and> cooldown_until example_proxy \<le> (100::real)
   \<and> cooldown_until (mark_success 100 example_proxy) = 100"
proof -
  have h: "(10::real) \<le> cooldown_until (fail_twice 0 example_proxy)"
    and e: "cooldown_until (fail_twice 0 example_proxy) = 20"
    and x: "cooldown_until example_proxy \<le> (100::real)"
    by (simp_all add: fail_twice_fields example_proxy_fields)
  show ?thesis
    using h e x mark_success_cooldown [of 10 "fail_twice 0 example_proxy"]
      mark_success_cooldown [of 100 example_proxy]
    by simp
qed

section \<open>Pool capacity\<close>

lemma get_next_proxies:
  "proxies (snd (get_next now h pool domain st)) = filter (retained now h pool) (proxies pool)"
  by (simp add: get_next_def Let_def proxies_evict_bad split: option.splits)

lemma get_next_fields:
  "max_size (snd (get_next now h pool domain st)) = max_size pool"
  "min_score (snd (get_next now h pool domain st)) = min_score pool"
  "eviction_threshold (snd (get_next now h pool domain st)) = eviction_threshold pool"
  by (simp_all add: get_next_def Let_def evict_bad_fields split: option.splits)

lemma length_add_proxy:
  "int (length (proxies pool)) \<le> max_size pool \<Longrightarrow>
   int (length (proxies (add_proxy pool a))) \<le> max_size pool"
  by (simp add: add_proxy_def)

lemma max_size_add_proxy: "max_size (add_proxy pool a) = max_size pool"
  by (simp add: add_proxy_def)

lemma max_size_bulk_add: "max_size (bulk_add pool as) = max_size pool"
  by (induction pool as rule: bulk_add.induct) auto

lemma length_bulk_add:
  "int (length (proxies pool)) \<le> max_size pool \<Longrightarrow>
   int (length (proxies (bulk_add pool as))) \<le> max_size pool"
  by (induction pool as rule: bulk_add.induct) auto

lemma length_get_next:
  assumes "int (length (proxies pool)) \<le> max_size pool"
  shows "int (length (proxies (snd (get_next now h pool domain st)))) \<le> max_size pool"
proof -
  have "int (length (filter (retained now h pool) (proxies pool))) \<le> int (length (proxies pool))"
    by simp
  with assms have "int (length (filter (retained now h pool) (proxies pool))) \<le> max_size pool"
    by linarith
  then show ?thesis
    by (simp add: get_next_proxies)
qed

lemma step_within_capacity:
  "within_capacity w ms \<Longrightarrow> within_capacity (step x w) ms"
proof (cases w)
  case (Pair h pool)
  assume "within_capacity w ms"
  with Pair have ms: "max_size pool = ms" and len: "int (length (proxies pool)) \<le> max_size pool"
    by (simp_all add: within_capacity_def)
  show ?thesis
  proof (cases x)
    case (AddProxy a)
    with Pair ms len length_add_proxy [OF len, of a] show ?thesis
      by (simp add: within_capacity_def max_size_add_proxy)
  next
    case (BulkAdd as)
    with Pair ms len length_bulk_add [OF len, of as] show ?thesis
      by (simp add: within_capacity_def max_size_bulk_add)
  next
    case (GetNext now domain st)
    with Pair ms len length_get_next [OF len, of now h domain st] show ?thesis
      by (simp add: within_capacity_def get_next_fields)
  next
    case (MarkResult now a succ soft)
    with Pair ms len show ?thesis
      by (simp add: within_capacity_def)
  qed
qed

lemma run_within_capacity:
  "within_capacity w ms \<Longrightarrow> within_capacity (run ops w) ms"
  by (induction ops arbitrary: w) (simp_all add: step_within_capacity)

text \<open>
  C8. After any sequence of pool operations on a pool constructed with a non-negative
  \<open>max_size\<close>, the list is no longer than \<open>max_size\<close>; a pool constructed with
  \<open>max_size = 3\<close> and bulk-loaded with 5 entries keeps exactly the first 3.
\<close>

theorem pool_never_exceeds_max_size:
  "(0 \<le> ms \<longrightarrow> int (length (proxies (snd (run ops (h, ProxyPool_init ms mn ev))))) \<le> ms) \<and>
   proxies (bulk_add (ProxyPool_init 3 mn ev) [a1, a2, a3, a4, a5]) = [a1, a2, a3]"
proof
  show "0 \<le> ms \<longrightarrow> int (length (proxies (snd (run ops (h, ProxyPool_init ms mn ev))))) \<le> ms"
  proof
    assume "0 \<le> ms"
    then have "within_capacity (h, ProxyPool_init ms mn ev) ms"
      by (simp add: within_capacity_def ProxyPool_init_def)
    then have "within_capacity (run ops (h, ProxyPool_init ms mn ev)) ms"
      by (rule run_within_capacity)
    then show "int (length (proxies (snd (run ops (h, ProxyPool_init ms mn ev))))) \<le> ms"
      by (simp add: within_capacity_def)
  qed
  show "proxies (bulk_add (ProxyPool_init 3 mn ev) [a1, a2, a3, a4, a5]) = [a1, a2, a3]"
    by (simp add: ProxyPool_init_def)
qed

theorem pool_never_exceeds_max_size_witness:
  "(0::int) \<le> 3 \<and>
   int (length (proxies (snd (run [BulkAdd [0, 1, 2, 3, 4], AddProxy 5]
                                 (example_heap, ProxyPool_init 3 (1 / 4) (1 / 20)))))) \<le> 3 \<and>
   proxies (snd (run [BulkAdd [0, 1, 2, 3, 4], AddProxy 5]
                     (example_heap, ProxyPool_init 3 (1 / 4) (1 / 20)))) = [0, 1, 2]"
proof -
  have e: "proxies (snd (run [BulkAdd [0, 1, 2, 3, 4], AddProxy 5]
                     (example_heap, ProxyPool_init 3 (1 / 4) (1 / 20)))) = [0, 1, 2]"
    by (simp add: ProxyPool_init_def add_proxy_def)
  show ?thesis
    using e pool_never_exceeds_max_size [of 3 "[BulkAdd [0, 1, 2, 3, 4], AddProxy 5]" example_heap "1 / 4" "1 / 20"]
    by simp
qed

section \<open>The provider adapter converts the convertible records\<close>

lemma convert_convertible:
  "convertible parse item \<Longrightarrow> convert_item parse now item = Inr (proxy_of parse now item)"
  by (auto simp: convertible_def well_formed_def port_accepted_def protocol_is_string_def
      convert_item_def proxy_of_def dict_get_def split: option.splits pyval.splits sum.splits)

lemma convert_not_convertible:
  "\<not> convertible parse item \<Longrightarrow> isl (convert_item parse now item)"
  by (auto simp: convertible_def well_formed_def port_accepted_def protocol_is_string_def
      convert_item_def dict_get_def split: option.splits pyval.splits sum.splits)

lemma integrate_convertible:
  "integrate_provider_proxies parse now items =
     map (proxy_of parse now) (filter (convertible parse) items)"
proof (induction items)
  case Nil
  then show ?case by simp
next
  case (Cons item items)
  show ?case
  proof (cases "convertible parse item")
    case True
    with Cons show ?thesis by (simp add: convert_convertible)
  next
    case False
    then have "isl (convert_item parse now item)" by (rule convert_not_convertible)
    with False Cons show ?thesis by (auto split: sum.splits)
  qed
qed

lemma missing_not_convertible:
  "missing_address_or_port item \<Longrightarrow> \<not> convertible parse item"
  by (auto simp: missing_address_or_port_def convertible_def well_formed_def)

lemma schema_convertible: "follows_schema item \<Longrightarrow> convertible parse item"
  by (auto simp: follows_schema_def convertible_def well_formed_def port_accepted_def
      protocol_is_string_def split: option.splits pyval.splits)

lemma lower_https: "lower ''HTTPS'' = ''https''"
  by code_simp

lemma example_records:
  "follows_schema record_us" "follows_schema record_uk"
  "missing_address_or_port record_no_port"
  "well_formed record_null_protocol" "\<not> convertible no_parse record_null_protocol"
  "convertible no_parse record_float_port"
  by (simp_all add: follows_schema_def missing_address_or_port_def well_formed_def
      convertible_def port_accepted_def protocol_is_string_def record_us_def record_uk_def
      record_no_port_def record_null_protocol_def record_float_port_def)

text \<open>
  A record with an address string and an integer port whose protocol is given as
  \<^verbatim>\<open>None\<close> contains an address and a port, and the adapter drops it.
\<close>

theorem integrate_provider_proxies_well_formed_counterexample:
  "well_formed record_null_protocol \<and>
   record_null_protocol ''ip'' = Some (VStr ''1.2.3.4'') \<and>
   record_null_protocol ''port'' = Some (VInt 8000) \<and>
   integrate_provider_proxies no_parse 0 [record_null_protocol] = []"
  by (simp add: well_formed_def record_null_protocol_def convert_item_def dict_get_def)

text \<open>
  C5, amended. For every input sequence the adapter converts exactly the records that
  contain an address and a port, whose port \<^verbatim>\<open>int()\<close> accepts and whose protocol, when
  given, is a string: the output is one Proxy per such record, in input order, built from
  the fields of that record, and every other record is skipped without aborting the batch.
  A record that misses the address or the port (that is, one that is not well-formed) is
  never converted, and a record that follows the schema (address string, integer port,
  protocol absent or a string) always is.
\<close>

theorem integrate_provider_proxies_convertible:
  "integrate_provider_proxies parse now items =
     map (proxy_of parse now) (filter (convertible parse) items) \<and>
   (missing_address_or_port item \<longleftrightarrow> \<not> well_formed item) \<and>
   (missing_address_or_port item \<longrightarrow> \<not> convertible parse item) \<and>
   (follows_schema item \<longrightarrow> convertible parse item)"
  by (simp add: integrate_convertible missing_not_convertible schema_convertible
      missing_address_or_port_def well_formed_def)

theorem integrate_provider_proxies_convertible_witness:
  "follows_schema record_us \<and> convertible no_parse record_us \<and>
   missing_address_or_port record_no_port \<and> \<not> convertible no_parse record_no_port \<and>
   integrate_provider_proxies no_parse 0
     [record_us, record_no_port, record_null_protocol, record_float_port, record_uk] =
     [proxy_of no_parse 0 record_us, proxy_of no_parse 0 record_float_port,
      proxy_of no_parse 0 record_uk] \<and>
   port (proxy_of no_parse 0 record_uk) = 8080 \<and>
   proto (proxy_of no_parse 0 record_uk) = ''https'' \<and>
   host (proxy_of no_parse 0 record_uk) = VStr ''5.6.7.8'' \<and>
   port (proxy_of no_parse 0 record_float_port) = 8080"
proof -
  have p: "port (proxy_of no_parse 0 record_uk) = 8080 \<and>
           proto (proxy_of no_parse 0 record_uk) = ''https'' \<and>
           host (proxy_of no_parse 0 record_uk) = VStr ''5.6.7.8''"
    by (simp add: proxy_of_def record_uk_def Proxy_init_def lower_https dict_get_def)
  have f: "port (proxy_of no_parse 0 record_float_port) = 8080"
    by (simp add: proxy_of_def record_float_port_def Proxy_init_def)
  have c: "convertible no_parse record_uk"
    using example_records(2) by (rule schema_convertible)
  show ?thesis
    using example_records p f c
      integrate_provider_proxies_convertible [of no_parse 0
        "[record_us, record_no_port, record_null_protocol, record_float_port, record_uk]"
        record_us]
      integrate_provider_proxies_convertible [of no_parse 0 "[]" record_no_port]
    by simp
qed

section \<open>Constructing a session\<close>

text \<open>
  Constructing a session with \<open>max_retries_per_request = -1\<close> raises no error.
\<close>

theorem stealth_session_negative_retries_counterexample:
  "\<not> isl (StealthSession_init 15 (- 1) (1, 4))"
  by (simp add: StealthSession_init_def)

text \<open>
  C6, amended. Constructing a StealthSession never fails: the timeout, the retry count
  and the delay range are accepted whatever they are, a negative retry count included,
  and stored as given, with an empty table of last requests; with a retry count of zero
  or less, \<open>request\<close> makes no attempt and returns no response, leaving pool and proxies
  as they were.
\<close>

theorem stealth_session_accepts_any_retry_count:
  "StealthSession_init t r d =
     Inr \<lparr> timeout = t, max_retries = r, per_domain_delay = d, domain_last_req = Map.empty \<rparr> \<and>
   (r \<le> 0 \<longrightarrow> request (projr (StealthSession_init t r d)) env domain w = (None, [], w))"
  by (simp add: StealthSession_init_def request_def)

theorem stealth_session_accepts_any_retry_count_witness:
  "(- 1 :: int) \<le> 0 \<and>
   StealthSession_init 15 (- 1) (1, 4) =
     Inr \<lparr> timeout = 15, max_retries = - 1, per_domain_delay = (1, 4),
           domain_last_req = Map.empty \<rparr> \<and>
   request (projr (StealthSession_init 15 (- 1) (1, 4))) failing_env ''example.com''
     (example_heap, example_pool) = (None, [], (example_heap, example_pool))"
  using stealth_session_accepts_any_retry_count
          [of 15 "- 1" "(1, 4)" failing_env "''example.com''" "(example_heap, example_pool)"]
  by (simp add: StealthSession_init_def)

section \<open>Selection and sticky sessions\<close>

lemma retained_cong:
  "eviction_threshold p1 = eviction_threshold p2 \<Longrightarrow> retained now h p1 = retained now h p2"
  by (rule ext) (simp add: retained_def)

lemma healthy_cong:
  "min_score p1 = min_score p2 \<Longrightarrow> healthy now h p1 = healthy now h p2"
  by (rule ext) (simp add: healthy_def)

lemma evict_bad_idem: "evict_bad now h (evict_bad now h pool) = evict_bad now h pool"
proof -
  have "retained now h (evict_bad now h pool) = retained now h pool"
    by (rule retained_cong) (simp add: evict_bad_fields)
  then show ?thesis by (simp add: evict_bad_def)
qed

lemma evict_bad_after_choice:
  "evict_bad now h (evict_bad now h pool \<lparr> cursor := c, sticky_map := m \<rparr>)
     = evict_bad now h pool \<lparr> cursor := c, sticky_map := m \<rparr>"
proof -
  have "retained now h (evict_bad now h pool \<lparr> cursor := c, sticky_map := m \<rparr>) = retained now h pool"
    by (rule retained_cong) (simp add: evict_bad_fields)
  then show ?thesis by (simp add: evict_bad_def)
qed

lemma candidates_subset:
  "a \<in> set (candidates now h pool) \<Longrightarrow> is_available now (h a) \<and> a \<in> set (proxies pool)"
  by (auto simp: candidates_def Let_def healthy_def split: if_splits)

lemma cursor_in_range:
  assumes "cs \<noteq> []"
  shows "nat ((c + 1) mod int (length cs)) < length cs"
proof -
  from assms have pos: "0 < int (length cs)" by simp
  then have "0 \<le> (c + 1) mod int (length cs)" and "(c + 1) mod int (length cs) < int (length cs)"
    by simp_all
  then show ?thesis by linarith
qed

lemma chosen_in_candidates:
  "cs \<noteq> [] \<Longrightarrow> cs ! nat ((c + 1) mod int (length cs)) \<in> set cs"
  by (simp add: cursor_in_range)

lemma get_next_sticky_hit:
  "sticky_choice now h (evict_bad now h pool) (sticky_key domain st) = Some s \<Longrightarrow>
   get_next now h pool domain st = (Some s, evict_bad now h pool)"
  by (simp add: get_next_def Let_def)

lemma get_next_rotate:
  assumes "sticky_choice now h (evict_bad now h pool) (sticky_key domain st) = None"
  shows "get_next now h pool domain st =
     (let P = evict_bad now h pool; cs = candidates now h P
      in if cs = [] then (None, P)
         else let c = (cursor P + 1) mod int (length cs)
              in (Some (cs ! nat c),
                  case sticky_key domain st of None \<Rightarrow> P \<lparr> cursor := c \<rparr>
                  | Some d \<Rightarrow> P \<lparr> cursor := c, sticky_map := (sticky_map P)(d \<mapsto> cs ! nat c) \<rparr>))"
  using assms by (simp add: get_next_def Let_def split: option.splits)

lemma get_next_repeat_unchanged:
  assumes dom: "domain \<noteq> []"
    and first: "get_next now h pool (Some domain) True = (Some a, pool')"
    and good: "min_score pool \<le> score now (h a)"
  shows "get_next now h pool' (Some domain) True = (Some a, pool')"
proof -
  let ?P = "evict_bad now h pool"
  from dom have key: "sticky_key (Some domain) True = Some domain"
    by (simp add: sticky_key_def)
  show ?thesis
  proof (cases "sticky_choice now h ?P (Some domain)")
    case (Some s)
    with key first have eq: "a = s" "pool' = ?P"
      by (simp_all add: get_next_sticky_hit)
    from Some eq have "sticky_choice now h (evict_bad now h pool') (sticky_key (Some domain) True) = Some a"
      by (simp add: key evict_bad_idem)
    then have "get_next now h pool' (Some domain) True = (Some a, evict_bad now h pool')"
      by (rule get_next_sticky_hit)
    with eq show ?thesis by (simp add: evict_bad_idem)
  next
    case None
    let ?cs = "candidates now h ?P"
    let ?c = "(cursor ?P + 1) mod int (length ?cs)"
    from None key have rot: "get_next now h pool (Some domain) True =
        (if ?cs = [] then (None, ?P)
         else (Some (?cs ! nat ?c),
               ?P \<lparr> cursor := ?c, sticky_map := (sticky_map ?P)(domain \<mapsto> ?cs ! nat ?c) \<rparr>))"
      by (simp add: get_next_rotate Let_def)
    with first have ne: "?cs \<noteq> []" by (auto split: if_splits)
    with rot first have a: "a = ?cs ! nat ?c"
      and p': "pool' = ?P \<lparr> cursor := ?c, sticky_map := (sticky_map ?P)(domain \<mapsto> a) \<rparr>"
      by simp_all
    from ne a have "a \<in> set ?cs" by (simp add: chosen_in_candidates)
    then have avail: "is_available now (h a)" by (simp add: candidates_subset)
    have ev: "evict_bad now h pool' = pool'"
      unfolding p' by (rule evict_bad_after_choice)
    have "min_score pool' = min_score pool"
      by (simp add: p' evict_bad_fields)
    with avail good have "healthy now h pool' a"
      by (simp add: healthy_def)
    then have "sticky_choice now h pool' (Some domain) = Some a"
      by (simp add: sticky_choice_def p')
    then have "sticky_choice now h (evict_bad now h pool') (sticky_key (Some domain) True) = Some a"
      by (simp add: ev key)
    then have "get_next now h pool' (Some domain) True = (Some a, evict_bad now h pool')"
      by (rule get_next_sticky_hit)
    with ev show ?thesis by simp
  qed
qed

lemma pair_pool_eq:
  "pair_pool = \<lparr> proxies = [0, 1], max_size = 200, min_score = 1 / 4,
     eviction_threshold = 1 / 20, cursor = 0, sticky_map = Map.empty \<rparr>"
  by (simp add: pair_pool_def add_proxy_def ProxyPool_init_def)

lemma low_heap_fields:
  "success (low_heap a) = 0" "fail (low_heap a) = 1" "cooldown_until (low_heap a) = 20"
  "created_at (low_heap a) = 0"
  by (simp_all add: low_heap_def mark_fail_fields example_proxy_fields)

lemma fresh_heap_fields:
  "success (fresh_heap a) = 0" "fail (fresh_heap a) = 0" "cooldown_until (fresh_heap a) = 0"
  "created_at (fresh_heap a) = 0"
  by (simp_all add: fresh_heap_def example_proxy_fields)

lemmas get_next_unfold = get_next_def Let_def evict_bad_def retained_def sticky_key_def
  sticky_choice_def candidates_def healthy_def is_available_def score_eq

lemma low_first:
  "get_next 100 low_heap pair_pool (Some ''example.com'') True =
     (Some 1, pair_pool \<lparr> cursor := 1, sticky_map := [''example.com'' \<mapsto> 1] \<rparr>)"
  by (simp add: pair_pool_eq get_next_unfold low_heap_fields)

lemma low_second:
  "get_next 100 low_heap (pair_pool \<lparr> cursor := 1, sticky_map := [''example.com'' \<mapsto> 1] \<rparr>)
     (Some ''example.com'') True =
     (Some 0, pair_pool \<lparr> cursor := 0, sticky_map := [''example.com'' \<mapsto> 0] \<rparr>)"
  by (simp add: pair_pool_eq get_next_unfold low_heap_fields)

lemma fresh_empty_first:
  "get_next 100 fresh_heap pair_pool (Some []) True = (Some 1, pair_pool \<lparr> cursor := 1 \<rparr>)"
  by (simp add: pair_pool_eq get_next_unfold fresh_heap_fields)

lemma fresh_empty_second:
  "get_next 100 fresh_heap (pair_pool \<lparr> cursor := 1 \<rparr>) (Some []) True
     = (Some 0, pair_pool \<lparr> cursor := 0 \<rparr>)"
  by (simp add: pair_pool_eq get_next_unfold fresh_heap_fields)

lemma fresh_first:
  "get_next 100 fresh_heap pair_pool (Some ''example.com'') True =
     (Some 1, pair_pool \<lparr> cursor := 1, sticky_map := [''example.com'' \<mapsto> 1] \<rparr>)"
  by (simp add: pair_pool_eq get_next_unfold fresh_heap_fields)

section \<open>The sticky map and the main list\<close>

lemma get_next_sticky_entry:
  assumes "sticky_map (snd (get_next now h pool domain st)) d = Some a"
  shows "sticky_map pool d = Some a \<or> a \<in> set (proxies (snd (get_next now h pool domain st)))"
proof (cases "sticky_choice now h (evict_bad now h pool) (sticky_key domain st)")
  case (Some s)
  with assms show ?thesis
    by (simp add: get_next_sticky_hit evict_bad_fields)
next
  case None
  let ?P = "evict_bad now h pool"
  let ?cs = "candidates now h ?P"
  show ?thesis
  proof (cases "?cs = []")
    case True
    with None assms show ?thesis
      by (simp add: get_next_rotate Let_def evict_bad_fields)
  next
    case False
    then have "?cs ! nat ((cursor ?P + 1) mod int (length ?cs)) \<in> set ?cs"
      by (rule chosen_in_candidates)
    then have in_list: "?cs ! nat ((cursor ?P + 1) mod int (length ?cs)) \<in> set (proxies ?P)"
      by (simp add: candidates_subset)
    have px: "proxies (snd (get_next now h pool domain st)) = proxies ?P"
      by (simp add: get_next_proxies proxies_evict_bad)
    from None False assms in_list show ?thesis
      unfolding px
      by (auto simp: get_next_rotate Let_def evict_bad_fields split: option.splits if_splits)
  qed
qed

lemma set_bulk_add:
  "set (proxies (bulk_add pool as)) \<subseteq> set (proxies pool) \<union> set as"
  by (induction pool as rule: bulk_add.induct) auto

lemma sticky_bulk_add: "sticky_map (bulk_add pool as) = sticky_map pool"
  by (induction pool as rule: bulk_add.induct) auto

lemma step_offered:
  assumes "set (proxies pool) \<union> ran (sticky_map pool) \<subseteq> A"
    and "step x (h, pool) = (h', pool')"
  shows "set (proxies pool') \<union> ran (sticky_map pool') \<subseteq> A \<union> offered [x]"
proof (cases x)
  case (AddProxy a)
  with assms show ?thesis by (auto simp: add_proxy_def split: if_splits)
next
  case (BulkAdd as)
  with assms set_bulk_add [of pool as] show ?thesis
    by (auto simp: sticky_bulk_add)
next
  case (GetNext now domain st)
  with assms have p': "pool' = snd (get_next now h pool domain st)" by auto
  have "set (proxies pool') \<subseteq> set (proxies pool)"
    by (auto simp: p' get_next_proxies)
  moreover have "ran (sticky_map pool') \<subseteq> ran (sticky_map pool) \<union> set (proxies pool')"
  proof
    fix a assume "a \<in> ran (sticky_map pool')"
    then obtain d where "sticky_map pool' d = Some a" by (auto simp: ran_def)
    then have "sticky_map pool d = Some a \<or> a \<in> set (proxies pool')"
      unfolding p' by (rule get_next_sticky_entry)
    then show "a \<in> ran (sticky_map pool) \<union> set (proxies pool')"
      by (auto simp: ran_def)
  qed
  ultimately show ?thesis using assms(1) by auto
next
  case (MarkResult now a succ soft)
  with assms show ?thesis by auto
qed

lemma offered_Cons: "offered (x # xs) = offered [x] \<union> offered xs"
  by (cases x) auto

lemma run_offered:
  "set (proxies pool) \<union> ran (sticky_map pool) \<subseteq> A \<Longrightarrow>
   set (proxies (snd (run ops (h, pool)))) \<union> ran (sticky_map (snd (run ops (h, pool))))
     \<subseteq> A \<union> offered ops"
proof (induction ops arbitrary: h pool A)
  case Nil
  then show ?case by simp
next
  case (Cons x xs)
  obtain h' pool' where st: "step x (h, pool) = (h', pool')" by (cases "step x (h, pool)")
  from Cons.prems st have "set (proxies pool') \<union> ran (sticky_map pool') \<subseteq> A \<union> offered [x]"
    by (rule step_offered)
  then have "set (proxies (snd (run xs (h', pool')))) \<union> ran (sticky_map (snd (run xs (h', pool'))))
     \<subseteq> (A \<union> offered [x]) \<union> offered xs"
    by (rule Cons.IH)
  with st show ?case
    by (simp add: offered_Cons [of x xs] Un_assoc)
qed

text \<open>
  C3, amended. In every reachable pool state every proxy stored in the sticky map is one
  that was handed to the pool by \<open>add_proxy\<close> or \<open>bulk_add\<close>, and an entry that
  \<open>get_next\<close> writes is an element of the main list at that moment. Eviction leaves the
  sticky map as it is, so an entry can refer to a proxy that eviction has removed.
\<close>

theorem sticky_entries_were_offered:
  "ran (sticky_map (snd (run ops (h, ProxyPool_init ms mn ev)))) \<subseteq> offered ops \<and>
   sticky_map (evict_bad now h pool) = sticky_map pool \<and>
   (sticky_map (snd (get_next now h pool domain st)) d = Some a \<longrightarrow>
      sticky_map pool d = Some a \<or> a \<in> set (proxies (snd (get_next now h pool domain st))))"
proof -
  have "set (proxies (ProxyPool_init ms mn ev)) \<union> ran (sticky_map (ProxyPool_init ms mn ev)) \<subseteq> {}"
    by (simp add: ProxyPool_init_def)
  then have "set (proxies (snd (run ops (h, ProxyPool_init ms mn ev))))
       \<union> ran (sticky_map (snd (run ops (h, ProxyPool_init ms mn ev)))) \<subseteq> {} \<union> offered ops"
    by (rule run_offered)
  then have "ran (sticky_map (snd (run ops (h, ProxyPool_init ms mn ev)))) \<subseteq> offered ops"
    by simp
  then show ?thesis
    by (simp add: evict_bad_fields get_next_sticky_entry)
qed

lemma evicting_run_result:
  "sticky_map (snd (run evicting_run (fresh_heap, ProxyPool_init 200 (1 / 4) (1 / 20)))) ''example.com''
     = Some 0 \<and>
   proxies (snd (run evicting_run (fresh_heap, ProxyPool_init 200 (1 / 4) (1 / 20)))) = []"
  by (simp add: evicting_run_def ProxyPool_init_def add_proxy_def get_next_unfold
      fresh_heap_fields mark_fail_fields)

text \<open>
  After that run the sticky map still holds proxy 0 for the domain, while the main list
  no longer contains it.
\<close>

theorem sticky_map_subset_of_list_counterexample:
  "sticky_map (snd (run evicting_run (fresh_heap, ProxyPool_init 200 (1 / 4) (1 / 20)))) ''example.com''
     = Some 0 \<and>
   0 \<notin> set (proxies (snd (run evicting_run (fresh_heap, ProxyPool_init 200 (1 / 4) (1 / 20)))))"
  by (simp only: evicting_run_result) simp

theorem sticky_entries_were_offered_witness:
  "sticky_map (snd (get_next 100 fresh_heap pair_pool (Some ''example.com'') True)) ''example.com''
     = Some 1 \<and>
   1 \<in> set (proxies (snd (get_next 100 fresh_heap pair_pool (Some ''example.com'') True))) \<and>
   sticky_map pair_pool ''example.com'' = None \<and>
   ran (sticky_map (snd (run evicting_run (fresh_heap, ProxyPool_init 200 (1 / 4) (1 / 20)))))
     \<subseteq> offered evicting_run"
proof -
  have s: "sticky_map (snd (get_next 100 fresh_heap pair_pool (Some ''example.com'') True))
             ''example.com'' = Some 1"
    by (simp only: fresh_first snd_conv) simp
  have n: "sticky_map pair_pool ''example.com'' = None"
    by (simp add: pair_pool_eq)
  show ?thesis
    using s n
      sticky_entries_were_offered [of evicting_run fresh_heap 200 "1 / 4" "1 / 20" 100 pair_pool
        "Some ''example.com''" True "''example.com''" 1]
    by simp
qed

section \<open>Repeated selection for a domain\<close>

lemma mark_success_fields:
  "success (mark_success now p) = success p + 1"
  "fail (mark_success now p) = fail p"
  "created_at (mark_success now p) = created_at p"
  "cooldown_until (mark_success now p) = max (cooldown_until p - 5) now"
  by (simp_all add: mark_success_def consts_defs)

lemma ratio_mono:
  fixes s f :: int
  assumes "0 \<le> s" "0 \<le> f"
  shows "(if s + f > 0 then real_of_int s / real_of_int (s + f) else 1 / 2)
     \<le> real_of_int (s + 1) / real_of_int (s + 1 + f)"
proof (cases "s + f > 0")
  case True
  with assms have "real_of_int s * real_of_int (s + 1 + f) \<le> real_of_int (s + 1) * real_of_int (s + f)"
    by (simp add: algebra_simps)
  with True assms have "real_of_int s / real_of_int (s + f) \<le> real_of_int (s + 1) / real_of_int (s + 1 + f)"
    by (simp add: frac_le_eq divide_le_eq field_simps)
  with True show ?thesis by simp
next
  case False
  with assms have "s = 0" "f = 0" by simp_all
  then show ?thesis by simp
qed

lemma score_mark_success_mono:
  assumes "counts_ok p"
  shows "score now p \<le> score now (mark_success t p)"
proof -
  from assms have s: "0 \<le> success p" and f: "0 \<le> fail p" by (simp_all add: counts_ok_def)
  from s f have pos: "success p + 1 + fail p > 0" by simp
  from ratio_mono [OF s f] pos show ?thesis
    by (simp add: score_eq mark_success_fields)
qed

lemma healthy_mark_success:
  assumes "healthy now h pool a" "counts_ok (h a)"
  shows "healthy now (h (a := mark_success now (h a))) pool a"
proof -
  from assms(1) have av: "cooldown_until (h a) \<le> now" and sc: "min_score pool \<le> score now (h a)"
    by (simp_all add: healthy_def is_available_def)
  from sc score_mark_success_mono [OF assms(2), of now now]
  have "min_score pool \<le> score now (mark_success now (h a))" by linarith
  with av show ?thesis
    by (simp add: healthy_def is_available_def mark_success_fields)
qed

lemma get_next_sticky_map_hit:
  assumes "domain \<noteq> []" "sticky_map pool domain = Some a" "healthy now h pool a"
  shows "get_next now h pool (Some domain) True = (Some a, evict_bad now h pool)"
proof -
  have "healthy now h (evict_bad now h pool) = healthy now h pool"
    by (rule healthy_cong) (simp add: evict_bad_fields)
  with assms have "sticky_choice now h (evict_bad now h pool) (sticky_key (Some domain) True) = Some a"
    by (simp add: sticky_choice_def sticky_key_def evict_bad_fields)
  then show ?thesis by (rule get_next_sticky_hit)
qed

lemma get_next_keeps_sticky:
  assumes "domain \<noteq> []" "sticky_map pool domain = Some a" "healthy now h pool a"
  shows "sticky_map (snd (get_next now h pool d st)) domain = Some a"
proof (cases "sticky_choice now h (evict_bad now h pool) (sticky_key d st)")
  case (Some s)
  with assms show ?thesis by (simp add: get_next_sticky_hit evict_bad_fields)
next
  case None
  have he: "healthy now h (evict_bad now h pool) = healthy now h pool"
    by (rule healthy_cong) (simp add: evict_bad_fields)
  from None assms he have "sticky_key d st \<noteq> Some domain"
    by (auto simp: sticky_choice_def evict_bad_fields)
  with None assms show ?thesis
    by (auto simp: get_next_rotate Let_def evict_bad_fields split: option.splits)
qed

lemma min_score_add_proxy: "min_score (add_proxy pool a) = min_score pool"
  by (simp add: add_proxy_def)

lemma min_score_bulk_add: "min_score (bulk_add pool as) = min_score pool"
  by (induction pool as rule: bulk_add.induct) auto

lemma sticky_add_proxy: "sticky_map (add_proxy pool a) = sticky_map pool"
  by (simp add: add_proxy_def)

lemma step_keeps_sticky:
  assumes dom: "domain \<noteq> []" and q: "quiet now x"
    and st: "sticky_map pool domain = Some a"
    and he: "healthy now h pool a" and ok: "counts_ok (h a)"
  shows "sticky_map (snd (step x (h, pool))) domain = Some a \<and>
         healthy now (fst (step x (h, pool))) (snd (step x (h, pool))) a \<and>
         counts_ok (fst (step x (h, pool)) a)"
proof (cases x)
  case (AddProxy b)
  have "healthy now h (add_proxy pool b) = healthy now h pool"
    by (rule healthy_cong) (simp add: min_score_add_proxy)
  with AddProxy st he ok show ?thesis by (simp add: sticky_add_proxy)
next
  case (BulkAdd bs)
  have "healthy now h (bulk_add pool bs) = healthy now h pool"
    by (rule healthy_cong) (simp add: min_score_bulk_add)
  with BulkAdd st he ok show ?thesis by (simp add: sticky_bulk_add)
next
  case (GetNext t d s)
  with q have t: "t = now" by simp
  have "healthy now h (snd (get_next now h pool d s)) = healthy now h pool"
    by (rule healthy_cong) (simp add: get_next_fields)
  with GetNext t he ok get_next_keeps_sticky [OF dom st he, of d s] show ?thesis by simp
next
  case (MarkResult t b succ soft)
  with q have t: "t = now" and sb: "succ \<or> b = None" by simp_all
  show ?thesis
  proof (cases b)
    case None
    with MarkResult st he ok show ?thesis by simp
  next
    case (Some c)
    with sb have succ: succ by simp
    show ?thesis
    proof (cases "c = a")
      case True
      with MarkResult Some succ t st ok healthy_mark_success [OF he ok] show ?thesis
        by (simp add: counts_ok_mark_success)
    next
      case False
      with MarkResult Some succ t st he ok show ?thesis
        by (simp add: healthy_def)
    qed
  qed
qed

lemma run_keeps_sticky:
  "domain \<noteq> [] \<Longrightarrow> list_all (quiet now) ops \<Longrightarrow> sticky_map pool domain = Some a \<Longrightarrow>
   healthy now h pool a \<Longrightarrow> counts_ok (h a) \<Longrightarrow>
   sticky_map (snd (run ops (h, pool))) domain = Some a \<and>
   healthy now (fst (run ops (h, pool))) (snd (run ops (h, pool))) a"
proof (induction ops arbitrary: h pool)
  case Nil
  then show ?case by simp
next
  case (Cons x xs)
  from Cons.prems have q: "quiet now x" and qs: "list_all (quiet now) xs" by simp_all
  obtain h2 pool2 where s: "step x (h, pool) = (h2, pool2)" by (cases "step x (h, pool)")
  from step_keeps_sticky [OF Cons.prems(1) q Cons.prems(3) Cons.prems(4) Cons.prems(5)] s
  have "sticky_map pool2 domain = Some a" "healthy now h2 pool2 a" "counts_ok (h2 a)"
    by simp_all
  from Cons.IH [OF Cons.prems(1) qs this] s show ?case by simp
qed

lemma get_next_available:
  assumes "fst (get_next now h pool domain st) = Some x"
  shows "is_available now (h x)"
proof (cases "sticky_choice now h (evict_bad now h pool) (sticky_key domain st)")
  case (Some s)
  then have "healthy now h (evict_bad now h pool) s"
    by (auto simp: sticky_choice_def split: option.splits if_splits)
  with Some assms show ?thesis by (simp add: get_next_sticky_hit healthy_def)
next
  case None
  let ?P = "evict_bad now h pool"
  let ?cs = "candidates now h ?P"
  from None assms have ne: "?cs \<noteq> []" and x: "x = ?cs ! nat ((cursor ?P + 1) mod int (length ?cs))"
    by (auto simp: get_next_rotate Let_def split: if_splits)
  from ne have "?cs ! nat ((cursor ?P + 1) mod int (length ?cs)) \<in> set ?cs"
    by (rule chosen_in_candidates)
  with x show ?thesis by (simp add: candidates_subset)
qed

lemma first_call_entry:
  assumes dom: "domain \<noteq> []"
    and first: "get_next now h pool (Some domain) True = (Some a, pool')"
  shows "sticky_map pool' domain = Some a" and "min_score pool' = min_score pool"
    and "is_available now (h a)"
proof -
  from first have f: "fst (get_next now h pool (Some domain) True) = Some a"
    and p': "pool' = snd (get_next now h pool (Some domain) True)" by simp_all
  from f show "is_available now (h a)" by (rule get_next_available)
  show "min_score pool' = min_score pool" by (simp add: p' get_next_fields)
  let ?P = "evict_bad now h pool"
  from dom have key: "sticky_key (Some domain) True = Some domain"
    by (simp add: sticky_key_def)
  show "sticky_map pool' domain = Some a"
  proof (cases "sticky_choice now h ?P (Some domain)")
    case (Some s)
    with key first have "a = s" "pool' = ?P" by (simp_all add: get_next_sticky_hit)
    with Some show ?thesis
      by (auto simp: sticky_choice_def evict_bad_fields split: option.splits if_splits)
  next
    case None
    with key first show ?thesis
      by (auto simp: get_next_rotate Let_def split: if_splits)
  qed
qed

text \<open>
  Two proxies whose score is below the minimum score are both out of cooldown: the first
  call for a domain hands out proxy 1 from the fallback list, the second call, at the same
  time, proxy 0. With the empty string as domain two healthy proxies alternate as well.
\<close>

theorem get_next_sticky_repeat_counterexample:
  "fst (get_next 100 low_heap pair_pool (Some ''example.com'') True) = Some 1 \<and>
   fst (get_next 100 low_heap
          (snd (get_next 100 low_heap pair_pool (Some ''example.com'') True))
          (Some ''example.com'') True) = Some 0 \<and>
   fst (get_next 100 fresh_heap pair_pool (Some []) True) = Some 1 \<and>
   fst (get_next 100 fresh_heap
          (snd (get_next 100 fresh_heap pair_pool (Some []) True)) (Some []) True) = Some 0"
  by (simp only: low_first low_second fresh_empty_first fresh_empty_second fst_conv snd_conv
      simp_thms)

text \<open>
  C4, amended. For every pool and every non-empty domain, if
  \<open>get_next(domain, enable_sticky=true)\<close> returns a proxy whose score meets the pool's
  minimum score, then a second call at the same time returns the same proxy object:
  directly after the first call (which then leaves the pool as the first call left it),
  and also after any operations in between that record no failure -- successes marked on
  any proxy, additions to the pool, selections for any domain -- for a proxy whose counters
  are not negative. More generally, whatever happened to the proxies and whatever time has
  passed since the first call, the second call returns that proxy whenever it is out of
  cooldown and its score meets the minimum score at the time of the second call.
\<close>

theorem get_next_sticky_repeat:
  assumes dom: "domain \<noteq> []"
    and first: "get_next now h pool (Some domain) True = (Some a, pool')"
  shows "(min_score pool \<le> score now (h a) \<longrightarrow>
            get_next now h pool' (Some domain) True = (Some a, pool')) \<and>
         (min_score pool \<le> score now (h a) \<and> counts_ok (h a) \<and> list_all (quiet now) ops \<longrightarrow>
            fst (get_next now (fst (run ops (h, pool'))) (snd (run ops (h, pool')))
                   (Some domain) True) = Some a) \<and>
         (is_available now' (h' a) \<and> min_score pool \<le> score now' (h' a) \<longrightarrow>
            fst (get_next now' h' pool' (Some domain) True) = Some a)"
proof -
  note entry = first_call_entry [OF dom first]
  have one: "get_next now h pool' (Some domain) True = (Some a, pool')"
    if "min_score pool \<le> score now (h a)"
    using dom first that by (rule get_next_repeat_unchanged)
  have two: "fst (get_next now (fst (run ops (h, pool'))) (snd (run ops (h, pool')))
                   (Some domain) True) = Some a"
    if good: "min_score pool \<le> score now (h a)" and ok: "counts_ok (h a)"
      and q: "list_all (quiet now) ops"
  proof -
    from entry good have he: "healthy now h pool' a" by (simp add: healthy_def)
    from run_keeps_sticky [OF dom q entry(1) he ok]
    have "sticky_map (snd (run ops (h, pool'))) domain = Some a"
      and "healthy now (fst (run ops (h, pool'))) (snd (run ops (h, pool'))) a"
      by simp_all
    with dom show ?thesis by (simp add: get_next_sticky_map_hit)
  qed
  have three: "fst (get_next now' h' pool' (Some domain) True) = Some a"
    if "is_available now' (h' a)" and "min_score pool \<le> score now' (h' a)"
  proof -
    from that entry(2) have "healthy now' h' pool' a" by (simp add: healthy_def)
    with dom entry(1) show ?thesis by (simp add: get_next_sticky_map_hit)
  qed
  from one two three show ?thesis by blast
qed

lemma quiet_run_ok: "list_all (quiet 100) quiet_run"
  by (simp add: quiet_run_def)

lemma later_heap_ok:
  "is_available 200 (later_heap 1)" "min_score pair_pool \<le> score 200 (later_heap 1)"
  by (simp_all add: later_heap_def is_available_def score_eq pair_pool_eq mark_fail_fields
      mark_success_fields example_proxy_fields)

theorem get_next_sticky_repeat_witness:
  "''example.com'' \<noteq> [] \<and>
   get_next 100 fresh_heap pair_pool (Some ''example.com'') True =
     (Some 1, pair_pool \<lparr> cursor := 1, sticky_map := [''example.com'' \<mapsto> 1] \<rparr>) \<and>
   min_score pair_pool \<le> score 100 (fresh_heap 1) \<and> counts_ok (fresh_heap 1) \<and>
   list_all (quiet 100) quiet_run \<and>
   is_available 200 (later_heap 1) \<and> min_score pair_pool \<le> score 200 (later_heap 1) \<and>
   get_next 100 fresh_heap (pair_pool \<lparr> cursor := 1, sticky_map := [''example.com'' \<mapsto> 1] \<rparr>)
     (Some ''example.com'') True =
     (Some 1, pair_pool \<lparr> cursor := 1, sticky_map := [''example.com'' \<mapsto> 1] \<rparr>) \<and>
   fst (get_next 100
          (fst (run quiet_run
             (fresh_heap, pair_pool \<lparr> cursor := 1, sticky_map := [''example.com'' \<mapsto> 1] \<rparr>)))
          (snd (run quiet_run
             (fresh_heap, pair_pool \<lparr> cursor := 1, sticky_map := [''example.com'' \<mapsto> 1] \<rparr>)))
          (Some ''example.com'') True) = Some 1 \<and>
   fst (get_next 200 later_heap
          (pair_pool \<lparr> cursor := 1, sticky_map := [''example.com'' \<mapsto> 1] \<rparr>)
          (Some ''example.com'') True) = Some 1"
proof -
  have d: "''example.com'' \<noteq> []" by simp
  have g: "min_score pair_pool \<le> score 100 (fresh_heap 1)"
    by (simp add: pair_pool_eq score_eq fresh_heap_fields)
  have c: "counts_ok (fresh_heap 1)"
    by (simp add: counts_ok_def fresh_heap_fields)
  show ?thesis
    using d g c fresh_first quiet_run_ok later_heap_ok
      get_next_sticky_repeat [OF d fresh_first, of quiet_run 200 later_heap]
    by simp
qed

section \<open>The retry loop over a single failing proxy\<close>






lemma request_loop_once:
  "request_once (env k) domain w = ((None, p), w') \<Longrightarrow>
   request_loop env domain k (Suc n) w =
     (fst (request_loop env domain (Suc k) n w'),
      (None, p) # fst (snd (request_loop env domain (Suc k) n w')),
      snd (snd (request_loop env domain (Suc k) n w')))"
  by (simp add: case_prod_unfold Let_def)

lemma selectable_retained:
  "selectable now pool (h a) \<longleftrightarrow> retained now h pool a \<and> is_available now (h a)"
  by (auto simp: selectable_def retained_def)

















end
